theory Spec2Isabelle
  imports Complex_Main "HOL-Library.Word"
begin

section \<open>C strings, characters and the platform\<close>

text \<open>
  The library \<^verbatim>\<open>cli_args.c\<close> is embedded function by function.

  \<^item> A C string is modelled by its contents, the characters before the terminating
    NUL, as a \<open>string\<close>; reading \<^verbatim>\<open>*p == '\0'\<close> is reaching the end of the list.
    A pointer that may be \<^verbatim>\<open>NULL\<close> is an \<open>option\<close>.
  \<^item> An output pointer \<^verbatim>\<open>T *out\<close> is a \<open>T option\<close>: \<open>None\<close> is \<^verbatim>\<open>NULL\<close>,
    \<open>Some v\<close> is a slot that holds \<open>v\<close>. A parser returns its verdict together with
    the slot after the call.
  \<^item> The integer types are those of the header's defaults on an LP64 platform:
    \<^verbatim>\<open>uint32_t\<close>, \<^verbatim>\<open>int\<close> and \<^verbatim>\<open>unsigned int\<close> are 32 bits wide; \<^verbatim>\<open>uint64_t\<close>, \<^verbatim>\<open>long\<close>,
    \<^verbatim>\<open>unsigned long\<close>, \<^verbatim>\<open>unsigned long long\<close> and \<^verbatim>\<open>size_t\<close> are 64 bits wide.
  \<^item> The functions of the C library that the code calls (\<^verbatim>\<open>isdigit\<close>, \<^verbatim>\<open>strtoul\<close>,
    \<^verbatim>\<open>strtoull\<close>, \<^verbatim>\<open>strtol\<close>, \<^verbatim>\<open>strtof\<close>, \<^verbatim>\<open>strtok\<close>, \<^verbatim>\<open>strcmp\<close>, \<^verbatim>\<open>strchr\<close>) follow
    ISO C in the "C" locale. Their setting of \<^verbatim>\<open>errno\<close> is left out: the code never
    reads it.
\<close>

type_synonym uint32 = "32 word"
type_synonym uint64 = "64 word"
type_synonym c_int = "32 word"
type_synonym c_uint = "32 word"
type_synonym c_long = "64 word"
type_synonym c_ulong = "64 word"
type_synonym c_ulonglong = "64 word"

definition ULONG_MAX :: nat where
  "ULONG_MAX = 2 ^ 64 - 1"

definition ULLONG_MAX :: nat where
  "ULLONG_MAX = 2 ^ 64 - 1"

definition LONG_MAX :: nat where
  "LONG_MAX = 2 ^ 63 - 1"

definition code :: "char \<Rightarrow> nat" where
  "code c = of_char c"

definition isdigit :: "char \<Rightarrow> bool" where
  "isdigit c = (48 \<le> code c \<and> code c \<le> 57)"

definition isspace :: "char \<Rightarrow> bool" where
  "isspace c = (code c = 32 \<or> (9 \<le> code c \<and> code c \<le> 13))"

definition tolower :: "char \<Rightarrow> char" where
  "tolower c = (if 65 \<le> code c \<and> code c \<le> 90 then char_of (code c + 32) else c)"

subsection \<open>The integer conversions of the C library\<close>

text \<open>
  \<open>digit_value\<close> is the value of a character as a digit in a base up to 36,
  \<open>in_base b\<close> holds of the digits of base \<open>b\<close>, and \<open>digits_value b\<close> is the number a
  digit sequence denotes.
\<close>

definition digit_value :: "char \<Rightarrow> nat option" where
  "digit_value c =
     (if 48 \<le> code c \<and> code c \<le> 57 then Some (code c - 48)
      else if 97 \<le> code c \<and> code c \<le> 122 then Some (code c - 87)
      else if 65 \<le> code c \<and> code c \<le> 90 then Some (code c - 55)
      else None)"

definition in_base :: "nat \<Rightarrow> char \<Rightarrow> bool" where
  "in_base b c = (case digit_value c of None \<Rightarrow> False | Some d \<Rightarrow> d < b)"

definition digits_value :: "nat \<Rightarrow> string \<Rightarrow> nat" where
  "digits_value b ds =
     foldl (\<lambda>a c. a * b + (case digit_value c of None \<Rightarrow> 0 | Some d \<Rightarrow> d)) 0 ds"

text \<open>An optional sign: whether it is a minus, and the text after it.\<close>

definition scan_sign :: "string \<Rightarrow> bool \<times> string" where
  "scan_sign s =
     (case s of
        [] \<Rightarrow> (False, s)
      | c # r \<Rightarrow>
          if c = CHR ''-'' then (True, r)
          else if c = CHR ''+'' then (False, r)
          else (False, s))"

text \<open>
  In base 16 a prefix \<^verbatim>\<open>0x\<close> or \<^verbatim>\<open>0X\<close> is skipped when a hexadecimal digit follows it.
\<close>

definition skip_0x :: "string \<Rightarrow> string" where
  "skip_0x s =
     (case s of
        c0 # c1 # c2 # r \<Rightarrow>
          if c0 = CHR ''0'' \<and> (c1 = CHR ''x'' \<or> c1 = CHR ''X'') \<and> in_base 16 c2
          then c2 # r else s
      | _ \<Rightarrow> s)"

text \<open>
  The subject sequence of \<^verbatim>\<open>strtol\<close>, \<^verbatim>\<open>strtoul\<close> and \<^verbatim>\<open>strtoull\<close>: white space, an
  optional sign, the digits of the base. The result is the sign, the magnitude and
  the text after the last digit, or \<open>None\<close> when there is no digit.
\<close>

definition scan_integer :: "nat \<Rightarrow> string \<Rightarrow> (bool \<times> nat \<times> string) option" where
  "scan_integer base nptr =
     (let (neg, s) = scan_sign (dropWhile isspace nptr);
          s' = (if base = 16 then skip_0x s else s);
          ds = takeWhile (in_base base) s'
      in if ds = [] then None
         else Some (neg, digits_value base ds, dropWhile (in_base base) s'))"

text \<open>
  \<^verbatim>\<open>strtoul(nptr, &endptr, base)\<close> returns the value and \<^verbatim>\<open>endptr\<close>. With no digits the
  value is 0 and \<^verbatim>\<open>endptr\<close> is \<^verbatim>\<open>nptr\<close>; a magnitude above \<^verbatim>\<open>ULONG_MAX\<close> gives
  \<^verbatim>\<open>ULONG_MAX\<close>; a minus sign negates in the unsigned type.
\<close>

definition strtoul :: "string \<Rightarrow> nat \<Rightarrow> c_ulong \<times> string" where
  "strtoul nptr base =
     (case scan_integer base nptr of
        None \<Rightarrow> (0, nptr)
      | Some (neg, n, endptr) \<Rightarrow>
          (if n > ULONG_MAX then word_of_nat ULONG_MAX
           else if neg then - word_of_nat n
           else word_of_nat n, endptr))"

definition strtoull :: "string \<Rightarrow> nat \<Rightarrow> c_ulonglong \<times> string" where
  "strtoull nptr base =
     (case scan_integer base nptr of
        None \<Rightarrow> (0, nptr)
      | Some (neg, n, endptr) \<Rightarrow>
          (if n > ULLONG_MAX then word_of_nat ULLONG_MAX
           else if neg then - word_of_nat n
           else word_of_nat n, endptr))"

text \<open>
  \<^verbatim>\<open>strtol\<close> returns a \<^verbatim>\<open>long\<close>, read as two's complement: a value above \<^verbatim>\<open>LONG_MAX\<close>
  gives \<^verbatim>\<open>LONG_MAX\<close>, a value below \<^verbatim>\<open>LONG_MIN\<close> gives \<^verbatim>\<open>LONG_MIN\<close>.
\<close>

definition strtol :: "string \<Rightarrow> nat \<Rightarrow> c_long \<times> string" where
  "strtol nptr base =
     (case scan_integer base nptr of
        None \<Rightarrow> (0, nptr)
      | Some (neg, n, endptr) \<Rightarrow>
          (if neg then (if n > LONG_MAX + 1 then - word_of_nat (LONG_MAX + 1)
                        else - word_of_nat n)
           else (if n > LONG_MAX then word_of_nat LONG_MAX else word_of_nat n),
           endptr))"

section \<open>Character-class predicates of \<^verbatim>\<open>cli_args.c\<close>\<close>

fun is_digits_loop :: "string \<Rightarrow> bool" where
  "is_digits_loop [] = True"
| "is_digits_loop (c # p) = (if \<not> isdigit c then False else is_digits_loop p)"

definition is_digits :: "string option \<Rightarrow> bool" where
  "is_digits str =
     (case str of
        None \<Rightarrow> False
      | Some s \<Rightarrow> if s = [] then False else is_digits_loop s)"

definition is_valid_int :: "string option \<Rightarrow> bool" where
  "is_valid_int str =
     (case str of
        None \<Rightarrow> False
      | Some s \<Rightarrow>
          (case s of
             [] \<Rightarrow> False
           | c # r \<Rightarrow>
               if c = CHR ''-'' \<or> c = CHR ''+'' then is_digits (Some r)
               else is_digits (Some s)))"

definition is_hex_char :: "char \<Rightarrow> bool" where
  "is_hex_char c =
     ((code (CHR ''0'') \<le> code c \<and> code c \<le> code (CHR ''9'')) \<or>
      (code (CHR ''a'') \<le> code c \<and> code c \<le> code (CHR ''f'')) \<or>
      (code (CHR ''A'') \<le> code c \<and> code c \<le> code (CHR ''F'')))"

fun is_hex_digits_loop :: "string \<Rightarrow> bool" where
  "is_hex_digits_loop [] = True"
| "is_hex_digits_loop (c # p) = (if \<not> is_hex_char c then False else is_hex_digits_loop p)"

definition is_hex_digits :: "string option \<Rightarrow> bool" where
  "is_hex_digits str =
     (case str of
        None \<Rightarrow> False
      | Some s \<Rightarrow> if s = [] then False else is_hex_digits_loop s)"

definition fold_case :: "char \<Rightarrow> char" where
  "fold_case c =
     (if code (CHR ''A'') \<le> code c \<and> code c \<le> code (CHR ''Z'')
      then char_of (code c + (code (CHR ''a'') - code (CHR ''A''))) else c)"

fun iequals :: "string \<Rightarrow> string \<Rightarrow> bool" where
  "iequals (c1 # s1) (c2 # s2) =
     (if fold_case c1 \<noteq> fold_case c2 then False else iequals s1 s2)"
| "iequals s1 s2 = (s1 = [] \<and> s2 = [])"

section \<open>Range-checked integer parsers\<close>

definition parse_uint32_in_range ::
  "string option \<Rightarrow> uint32 \<Rightarrow> uint32 \<Rightarrow> uint32 option \<Rightarrow> bool \<times> uint32 option" where
  "parse_uint32_in_range arg min_v max_v out =
     (case arg of
        None \<Rightarrow> (False, out)
      | Some s \<Rightarrow>
          if s = [] then (False, out)
          else if \<not> is_digits (Some s) then (False, out)
          else
            (let (val, endptr) = strtoul s 10 in
               if endptr \<noteq> [] then (False, out)
               else if val < ucast min_v \<or> val > ucast max_v then (False, out)
               else (True, (case out of None \<Rightarrow> None | Some _ \<Rightarrow> Some (ucast val)))))"

definition parse_uint64_in_range ::
  "string option \<Rightarrow> uint64 \<Rightarrow> uint64 \<Rightarrow> uint64 option \<Rightarrow> bool \<times> uint64 option" where
  "parse_uint64_in_range arg min_v max_v out =
     (case arg of
        None \<Rightarrow> (False, out)
      | Some s \<Rightarrow>
          if s = [] then (False, out)
          else if \<not> is_digits (Some s) then (False, out)
          else
            (let (val, endptr) = strtoull s 10 in
               if endptr \<noteq> [] then (False, out)
               else if val < min_v \<or> val > max_v then (False, out)
               else (True, (case out of None \<Rightarrow> None | Some _ \<Rightarrow> Some val))))"

text \<open>
  In \<^verbatim>\<open>parse_int_in_range\<close> the bounds are \<^verbatim>\<open>int\<close>s, converted to \<^verbatim>\<open>long\<close> for the
  signed comparisons; the value written is the \<^verbatim>\<open>long\<close> cut to an \<^verbatim>\<open>int\<close>.
\<close>

definition parse_int_in_range ::
  "string option \<Rightarrow> c_int \<Rightarrow> c_int \<Rightarrow> c_int option \<Rightarrow> bool \<times> c_int option" where
  "parse_int_in_range arg min_v max_v out =
     (case arg of
        None \<Rightarrow> (False, out)
      | Some s \<Rightarrow>
          if s = [] then (False, out)
          else if \<not> is_valid_int (Some s) then (False, out)
          else
            (let (val, endptr) = strtol s 10 in
               if endptr \<noteq> [] then (False, out)
               else if val <s scast min_v \<or> scast max_v <s val then (False, out)
               else (True, (case out of None \<Rightarrow> None | Some _ \<Rightarrow> Some (ucast val)))))"

section \<open>Enumerated string option\<close>

text \<open>
  \<^verbatim>\<open>strcmp\<close>: zero when the strings are equal, otherwise the sign of the difference
  of the first pair of bytes that differ.
\<close>

fun strcmp :: "string \<Rightarrow> string \<Rightarrow> int" where
  "strcmp [] [] = 0"
| "strcmp [] (c # t) = - 1"
| "strcmp (c # s) [] = 1"
| "strcmp (a # s) (b # t) =
     (if a = b then strcmp s t else if code a < code b then - 1 else 1)"

text \<open>
  The option table is the list of its \<^verbatim>\<open>num_options\<close> entries. The loop runs over the
  entries \<^verbatim>\<open>options[i]\<close>, \<^verbatim>\<open>options[i + 1]\<close>, ... that are left, with the counter \<open>i\<close>
  (a \<^verbatim>\<open>size_t\<close>, which cannot overflow below the length of an array). The index is
  written through the cast \<^verbatim>\<open>(CLIPAR_UINT)i\<close>, which keeps its low 32 bits.
\<close>

fun parse_string_option_loop ::
  "string \<Rightarrow> string list \<Rightarrow> nat \<Rightarrow> c_uint option \<Rightarrow> bool \<times> c_uint option" where
  "parse_string_option_loop s [] i out_index = (False, out_index)"
| "parse_string_option_loop s (entry # rest) i out_index =
     (if strcmp s entry = 0
      then (True, (case out_index of None \<Rightarrow> None | Some _ \<Rightarrow> Some (word_of_nat i)))
      else parse_string_option_loop s rest (i + 1) out_index)"

definition parse_string_option ::
  "string option \<Rightarrow> string list \<Rightarrow> c_uint option \<Rightarrow> bool \<times> c_uint option" where
  "parse_string_option arg options out_index =
     (case arg of
        None \<Rightarrow> (False, out_index)
      | Some s \<Rightarrow> parse_string_option_loop s options 0 out_index)"

section \<open>IPv4 addresses\<close>

text \<open>
  \<^verbatim>\<open>strtok\<close> on the text at its saved position: it skips the delimiters in front,
  returns \<open>None\<close> (\<^verbatim>\<open>NULL\<close>) when nothing is left, and otherwise the token up to the
  next delimiter together with the new saved position, behind that delimiter.
  The first call \<^verbatim>\<open>strtok(ip_copy, ".")\<close> starts at the copy of the argument; each call
  \<^verbatim>\<open>strtok(NULL, ".")\<close> continues at the saved position.
\<close>

definition strtok :: "string \<Rightarrow> string \<Rightarrow> (string \<times> string) option" where
  "strtok s delim =
     (let s1 = dropWhile (\<lambda>c. c \<in> set delim) s in
        if s1 = [] then None
        else Some (takeWhile (\<lambda>c. c \<notin> set delim) s1,
                   drop 1 (dropWhile (\<lambda>c. c \<notin> set delim) s1)))"

lemma strtok_shorter:
  assumes "strtok s delim = Some (token, saved)"
  shows "length saved < length s"
proof -
  define s1 where "s1 = dropWhile (\<lambda>c. c \<in> set delim) s"
  define r where "r = dropWhile (\<lambda>c. c \<notin> set delim) s1"
  from assms have ne: "s1 \<noteq> []"
    unfolding strtok_def Let_def s1_def by (simp split: if_splits)
  from assms have sv: "saved = drop 1 r"
    unfolding strtok_def Let_def s1_def r_def by (simp split: if_splits)
  have l1: "length r \<le> length s1"
    unfolding r_def by (rule length_dropWhile_le)
  have l2: "length s1 \<le> length s"
    unfolding s1_def by (rule length_dropWhile_le)
  from ne have l3: "0 < length s1" by simp
  from sv have l4: "length saved = length r - 1" by simp
  from l1 l2 l3 l4 show ?thesis by arith
qed

text \<open>
  The \<^verbatim>\<open>while\<close> loop of \<^verbatim>\<open>parse_ip_address\<close>, from the saved position of \<^verbatim>\<open>strtok\<close> and
  the counter: it returns \<^verbatim>\<open>valid\<close> and \<^verbatim>\<open>count\<close> as they stand when the loop is left.
  The counter is an \<^verbatim>\<open>int\<close>; on the 15 characters that \<^verbatim>\<open>parse_ip_address\<close> lets through
  it counts at most 8 tokens.
\<close>

function parse_ip_address_loop :: "string \<Rightarrow> c_int \<Rightarrow> bool \<times> c_int" where
  "parse_ip_address_loop saved count =
     (case strtok saved ''.'' of
        None \<Rightarrow> (True, count)
      | Some (token, saved') \<Rightarrow>
          if \<not> is_digits (Some token) then (False, count)
          else
            (let part = fst (strtol token 10) in
               if part <s 0 \<or> 255 <s part then (False, count)
               else parse_ip_address_loop saved' (count + 1)))"
  by pat_completeness auto
termination
proof (relation "measure (\<lambda>(saved, count). length saved)")
  show "wf (measure (\<lambda>(saved, count). length saved))" by simp
next
  fix saved :: string and count :: c_int and x2 token saved'
  assume "strtok saved ''.'' = Some x2" and "(token, saved') = x2"
  then have "strtok saved ''.'' = Some (token, saved')" by simp
  then have "length saved' < length saved" by (rule strtok_shorter)
  then show "((saved', count + 1), (saved, count)) \<in> measure (\<lambda>(saved, count). length saved)"
    by simp
qed

definition parse_ip_address :: "string option \<Rightarrow> bool" where
  "parse_ip_address arg =
     (case arg of
        None \<Rightarrow> False
      | Some s \<Rightarrow>
          if s = [] then False
          else if length s > 15 then False
          else
            (let (valid, count) = parse_ip_address_loop s 0 in
               if count \<noteq> 4 then False else valid))"

text \<open>\<^verbatim>\<open>strchr\<close>: the text from the first occurrence of the character on.\<close>

definition strchr :: "string \<Rightarrow> char \<Rightarrow> string option" where
  "strchr s c =
     (let r = dropWhile (\<lambda>x. x \<noteq> c) s in if r = [] then None else Some r)"

definition parse_ip_address_with_netmask :: "string option \<Rightarrow> bool" where
  "parse_ip_address_with_netmask arg =
     (case arg of
        None \<Rightarrow> False
      | Some s \<Rightarrow>
          if s = [] then False
          else
            (case strchr s (CHR ''/'') of
               None \<Rightarrow> False
             | Some slash \<Rightarrow>
                 (let ip_len = length s - length slash in
                    if ip_len = 0 \<or> ip_len > 15 then False
                    else if \<not> parse_ip_address (Some (take ip_len s)) then False
                    else
                      (let netmask_part = drop 1 slash in
                         if netmask_part = [] then False
                         else if \<not> is_digits (Some netmask_part) then False
                         else
                           (let (netmask, endptr) = strtol netmask_part 10 in
                              if endptr \<noteq> [] then False
                              else if netmask <s 0 \<or> 32 <s netmask then False
                              else True)))))"

section \<open>Booleans\<close>

definition parse_bool :: "string option \<Rightarrow> bool option \<Rightarrow> bool \<times> bool option" where
  "parse_bool arg out =
     (case arg of
        None \<Rightarrow> (False, out)
      | Some s \<Rightarrow>
          if iequals s ''true'' \<or> iequals s ''1'' \<or> iequals s ''yes''
          then (True, (case out of None \<Rightarrow> None | Some _ \<Rightarrow> Some True))
          else if iequals s ''false'' \<or> iequals s ''0'' \<or> iequals s ''no''
          then (True, (case out of None \<Rightarrow> None | Some _ \<Rightarrow> Some False))
          else (False, out))"

section \<open>Floating point\<close>

text \<open>
  A \<^verbatim>\<open>float\<close> is a NaN, an infinity or a finite number. Only the order of the values
  enters the parser: \<open>float_less\<close> is the operator \<^verbatim>\<open><\<close> of C, which is false as soon
  as one side is a NaN.
\<close>

datatype cfloat = FNaN | FNegInf | FFinite real | FPosInf

fun float_less :: "cfloat \<Rightarrow> cfloat \<Rightarrow> bool" where
  "float_less FNaN y = False"
| "float_less x FNaN = False"
| "float_less FNegInf FNegInf = False"
| "float_less FNegInf y = True"
| "float_less (FFinite a) FNegInf = False"
| "float_less (FFinite a) (FFinite b) = (a < b)"
| "float_less (FFinite a) FPosInf = True"
| "float_less FPosInf y = False"

text \<open>
  The subject sequence of \<^verbatim>\<open>strtof\<close> (ISO C, 7.22.1.3): white space, an optional sign,
  and then \<^verbatim>\<open>INF\<close> or \<^verbatim>\<open>INFINITY\<close>, or \<^verbatim>\<open>NAN\<close> with an optional parenthesised
  sequence of letters, digits and underscores (all three ignoring case), or a
  hexadecimal number after \<^verbatim>\<open>0x\<close>, or a decimal number. A number is a sequence of
  digits that may contain one decimal point and has at least one digit, with an
  optional exponent part; an exponent part is taken only when it has a digit.
\<close>

definition istarts_with :: "string \<Rightarrow> string \<Rightarrow> bool" where
  "istarts_with pat s = (length pat \<le> length s \<and> map tolower (take (length pat) s) = pat)"

definition is_nchar :: "char \<Rightarrow> bool" where
  "is_nchar c = (isdigit c \<or> c = CHR ''_'' \<or> (97 \<le> code (tolower c) \<and> code (tolower c) \<le> 122))"

text \<open>The length of the parenthesised part after \<^verbatim>\<open>NAN\<close>, 0 when there is none.\<close>

definition scan_nan_suffix :: "string \<Rightarrow> nat" where
  "scan_nan_suffix s =
     (case s of
        [] \<Rightarrow> 0
      | c # r \<Rightarrow>
          if c = CHR ''('' then
            (case dropWhile is_nchar r of
               [] \<Rightarrow> 0
             | d # r' \<Rightarrow> if d = CHR '')'' then 2 + length (takeWhile is_nchar r) else 0)
          else 0)"

text \<open>The length of the digits and decimal point of a number in base \<open>b\<close>, if it has a digit.\<close>

definition scan_mantissa :: "nat \<Rightarrow> string \<Rightarrow> nat option" where
  "scan_mantissa b s =
     (let whole = takeWhile (in_base b) s;
          r = dropWhile (in_base b) s;
          point = (case r of [] \<Rightarrow> False | c # r' \<Rightarrow> c = CHR ''.'');
          frac = (if point then takeWhile (in_base b) (drop 1 r) else [])
      in if whole = [] \<and> frac = [] then None
         else Some (length whole + (if point then 1 + length frac else 0)))"

text \<open>The length of an exponent part with the letter \<open>e\<close>, 0 when there is none.\<close>

definition scan_exponent :: "char \<Rightarrow> string \<Rightarrow> nat" where
  "scan_exponent e s =
     (case s of
        [] \<Rightarrow> 0
      | c # r \<Rightarrow>
          if tolower c = e then
            (let r' = snd (scan_sign r); ds = takeWhile isdigit r' in
               if ds = [] then 0 else 1 + (length r - length r') + length ds)
          else 0)"

text \<open>
  \<^verbatim>\<open>strtof(nptr, &endptr)\<close> returns the value and \<^verbatim>\<open>endptr\<close>. The \<^verbatim>\<open>float\<close> that a number
  is rounded to is the platform's: it is the parameter \<open>conv\<close>, applied to the sign and
  the text of the number. With no subject sequence the value is 0 and \<^verbatim>\<open>endptr\<close> is
  \<^verbatim>\<open>nptr\<close>.
\<close>

definition strtof :: "(bool \<Rightarrow> string \<Rightarrow> cfloat) \<Rightarrow> string \<Rightarrow> cfloat \<times> string" where
  "strtof conv nptr =
     (let (neg, s) = scan_sign (dropWhile isspace nptr) in
        if istarts_with ''infinity'' s then (if neg then FNegInf else FPosInf, drop 8 s)
        else if istarts_with ''inf'' s then (if neg then FNegInf else FPosInf, drop 3 s)
        else if istarts_with ''nan'' s then (FNaN, drop (3 + scan_nan_suffix (drop 3 s)) s)
        else
          (case (if istarts_with ''0x'' s then scan_mantissa 16 (drop 2 s) else None) of
             Some m \<Rightarrow>
               (let n = 2 + m + scan_exponent (CHR ''p'') (drop (2 + m) s) in
                  (conv neg (take n s), drop n s))
           | None \<Rightarrow>
               (case scan_mantissa 10 s of
                  Some m \<Rightarrow>
                    (let n = m + scan_exponent (CHR ''e'') (drop m s) in
                       (conv neg (take n s), drop n s))
                | None \<Rightarrow> (FFinite 0, nptr))))"

definition parse_float_in_range ::
  "(bool \<Rightarrow> string \<Rightarrow> cfloat) \<Rightarrow> string option \<Rightarrow> cfloat \<Rightarrow> cfloat \<Rightarrow> cfloat option
     \<Rightarrow> bool \<times> cfloat option" where
  "parse_float_in_range conv arg min_v max_v out =
     (case arg of
        None \<Rightarrow> (False, out)
      | Some s \<Rightarrow>
          if s = [] then (False, out)
          else
            (let (val, endptr) = strtof conv s in
               if endptr \<noteq> [] then (False, out)
               else if float_less val min_v \<or> float_less max_v val then (False, out)
               else (True, (case out of None \<Rightarrow> None | Some _ \<Rightarrow> Some val))))"

section \<open>Hexadecimal numbers\<close>

text \<open>
  \<^verbatim>\<open>arg[1]\<close> of a string of one character is its terminating NUL, which is neither
  \<^verbatim>\<open>x\<close> nor \<^verbatim>\<open>X\<close>.
\<close>

definition parse_hex_in_range ::
  "string option \<Rightarrow> c_ulong \<Rightarrow> c_ulong \<Rightarrow> c_ulong option \<Rightarrow> bool \<times> c_ulong option" where
  "parse_hex_in_range arg min_v max_v out =
     (case arg of
        None \<Rightarrow> (False, out)
      | Some s \<Rightarrow>
          if s = [] then (False, out)
          else
            (let s' = (case s of
                         c0 # c1 # r \<Rightarrow>
                           if c0 = CHR ''0'' \<and> (c1 = CHR ''x'' \<or> c1 = CHR ''X'') then r else s
                       | _ \<Rightarrow> s)
             in if \<not> is_hex_digits (Some s') then (False, out)
                else
                  (let (val, endptr) = strtoul s' 16 in
                     if endptr \<noteq> [] then (False, out)
                     else if val < min_v \<or> val > max_v then (False, out)
                     else (True, (case out of None \<Rightarrow> None | Some _ \<Rightarrow> Some val)))))"

section \<open>Custom validators\<close>

text \<open>
  The validator is a function pointer that may be \<^verbatim>\<open>NULL\<close>; it receives the argument
  and the output pointer and returns its verdict and the slot as it leaves it.
\<close>

definition parse_custom ::
  "string option \<Rightarrow> (string \<Rightarrow> 'a option \<Rightarrow> bool \<times> 'a option) option \<Rightarrow> 'a option
     \<Rightarrow> bool \<times> 'a option" where
  "parse_custom arg validator out =
     (case arg of
        None \<Rightarrow> (False, out)
      | Some s \<Rightarrow>
          (case validator of
             None \<Rightarrow> (False, out)
           | Some v \<Rightarrow> v s out))"

section \<open>The spec's notions, for comparison with the code\<close>

text \<open>
  \<open>split_on c s\<close> cuts \<open>s\<close> at every occurrence of \<open>c\<close> and keeps empty pieces, so that
  \<^verbatim>\<open>"1..2"\<close> has the three pieces \<^verbatim>\<open>"1"\<close>, \<^verbatim>\<open>""\<close> and \<^verbatim>\<open>"2"\<close>.
\<close>

fun split_on :: "char \<Rightarrow> string \<Rightarrow> string list" where
  "split_on c [] = [[]]"
| "split_on c (x # xs) =
     (if x = c then [] # split_on c xs
      else (case split_on c xs of
              [] \<Rightarrow> [[x]]
            | t # ts \<Rightarrow> (x # t) # ts))"

text \<open>
  The IPv4 rule in the spec's words: at most 15 characters, exactly 4 pieces between the
  dots, each non-empty, all digits and denoting a number in \<open>[0, 255]\<close>.
\<close>

definition spec_ip_address :: "string \<Rightarrow> bool" where
  "spec_ip_address s =
     (length s \<le> 15 \<and> length (split_on (CHR ''.'') s) = 4 \<and>
      list_all (\<lambda>t. t \<noteq> [] \<and> list_all isdigit t \<and> digits_value 10 t \<le> 255)
        (split_on (CHR ''.'') s))"

text \<open>The position of the first entry of a table that equals \<open>s\<close>.\<close>

definition first_index :: "string \<Rightarrow> string list \<Rightarrow> nat" where
  "first_index s table = length (takeWhile (\<lambda>e. e \<noteq> s) table)"

text \<open>The canonical decimal rendering of a number: no sign and no leading zero for a
  natural number, a leading minus sign for a negative integer.\<close>

definition digit_char :: "nat \<Rightarrow> char" where
  "digit_char d = ''0123456789'' ! d"

fun dec_of_nat :: "nat \<Rightarrow> string" where
  "dec_of_nat n =
     (if n < 10 then [digit_char n] else dec_of_nat (n div 10) @ [digit_char (n mod 10)])"

definition dec_of_int :: "int \<Rightarrow> string" where
  "dec_of_int i = (if i < 0 then CHR ''-'' # dec_of_nat (nat (- i)) else dec_of_nat (nat i))"

section \<open>Evaluation on concrete arguments\<close>

declare parse_ip_address_loop.simps [simp del]
declare dec_of_nat.simps [simp del]

lemma code_Char:
  "code (Char b0 b1 b2 b3 b4 b5 b6 b7) = of_char (Char b0 b1 b2 b3 b4 b5 b6 b7)"
  by (simp add: code_def)

lemma code_fold_case:
  "code (fold_case c) = (if 65 \<le> code c \<and> code c \<le> 90 then code c + 32 else code c)"
  by (simp add: fold_case_def code_def)

lemma fold_case_eq_iff:
  "(fold_case a = fold_case b) = (code (fold_case a) = code (fold_case b))"
  by (simp add: code_def)

lemma code_tolower:
  "code (tolower c) = (if 65 \<le> code c \<and> code c \<le> 90 then code c + 32 else code c)"
  by (simp add: tolower_def code_def)

lemma tolower_eq_iff: "(tolower c = d) = (code (tolower c) = code d)"
  by (simp add: code_def)

lemmas char_rules = code_Char code_fold_case fold_case_eq_iff code_tolower tolower_eq_iff

lemmas integer_rules =
  isdigit_def isspace_def digit_value_def in_base_def digits_value_def scan_sign_def
  skip_0x_def scan_integer_def strtoul_def strtoull_def strtol_def
  ULONG_MAX_def ULLONG_MAX_def LONG_MAX_def word_sless_alt

lemmas float_rules =
  istarts_with_def is_nchar_def scan_nan_suffix_def scan_mantissa_def scan_exponent_def
  strtof_def

lemmas predicate_rules = is_digits_def is_valid_int_def is_hex_char_def is_hex_digits_def

lemmas parser_rules =
  parse_uint32_in_range_def parse_uint64_in_range_def parse_int_in_range_def
  parse_string_option_def strtok_def parse_ip_address_loop.simps parse_ip_address_def
  strchr_def parse_ip_address_with_netmask_def parse_bool_def parse_float_in_range_def
  parse_hex_in_range_def parse_custom_def

lemmas run = char_rules integer_rules float_rules predicate_rules parser_rules

section \<open>Lemmas about the output slot\<close>

lemma loop_frame:
  "\<not> fst (parse_string_option_loop s table i out) \<Longrightarrow> snd (parse_string_option_loop s table i out) = out"
  by (induction table arbitrary: i) (auto split: if_splits)

lemma loop_verdict:
  "fst (parse_string_option_loop s table i out) = fst (parse_string_option_loop s table i None)"
  by (induction table arbitrary: i) auto

lemma uint32_frame:
  "\<not> fst (parse_uint32_in_range arg lo hi out) \<Longrightarrow> snd (parse_uint32_in_range arg lo hi out) = out"
  by (auto simp: parse_uint32_in_range_def split: option.splits prod.splits if_splits)

lemma uint64_frame:
  "\<not> fst (parse_uint64_in_range arg lo hi out) \<Longrightarrow> snd (parse_uint64_in_range arg lo hi out) = out"
  by (auto simp: parse_uint64_in_range_def split: option.splits prod.splits if_splits)

lemma int_frame:
  "\<not> fst (parse_int_in_range arg lo hi out) \<Longrightarrow> snd (parse_int_in_range arg lo hi out) = out"
  by (auto simp: parse_int_in_range_def split: option.splits prod.splits if_splits)

lemma float_frame:
  "\<not> fst (parse_float_in_range conv arg lo hi out) \<Longrightarrow> snd (parse_float_in_range conv arg lo hi out) = out"
  by (auto simp: parse_float_in_range_def split: option.splits prod.splits if_splits)

lemma hex_frame:
  "\<not> fst (parse_hex_in_range arg lo hi out) \<Longrightarrow> snd (parse_hex_in_range arg lo hi out) = out"
  by (auto simp: parse_hex_in_range_def Let_def split: option.splits prod.splits if_splits)

lemma bool_frame:
  "\<not> fst (parse_bool arg out) \<Longrightarrow> snd (parse_bool arg out) = out"
  by (auto simp: parse_bool_def split: option.splits prod.splits if_splits)

lemma string_option_frame:
  "\<not> fst (parse_string_option arg table out) \<Longrightarrow> snd (parse_string_option arg table out) = out"
  by (simp add: parse_string_option_def loop_frame split: option.splits)

lemma uint32_verdict:
  "fst (parse_uint32_in_range arg lo hi (Some v)) = fst (parse_uint32_in_range arg lo hi None)"
  by (simp add: parse_uint32_in_range_def split: option.splits prod.splits)

lemma uint64_verdict:
  "fst (parse_uint64_in_range arg lo hi (Some v)) = fst (parse_uint64_in_range arg lo hi None)"
  by (simp add: parse_uint64_in_range_def split: option.splits prod.splits)

lemma int_verdict:
  "fst (parse_int_in_range arg lo hi (Some v)) = fst (parse_int_in_range arg lo hi None)"
  by (simp add: parse_int_in_range_def split: option.splits prod.splits)

lemma float_verdict:
  "fst (parse_float_in_range conv arg lo hi (Some v)) = fst (parse_float_in_range conv arg lo hi None)"
  by (simp add: parse_float_in_range_def split: option.splits prod.splits)

lemma hex_verdict:
  "fst (parse_hex_in_range arg lo hi (Some v)) = fst (parse_hex_in_range arg lo hi None)"
  by (simp add: parse_hex_in_range_def Let_def split: option.splits prod.splits)

lemma bool_verdict:
  "fst (parse_bool arg (Some v)) = fst (parse_bool arg None)"
  by (simp add: parse_bool_def split: option.splits prod.splits)

lemma string_option_verdict:
  "fst (parse_string_option arg table (Some v)) = fst (parse_string_option arg table None)"
  by (simp add: parse_string_option_def loop_verdict[of _ _ _ "Some v"] split: option.splits)

section \<open>Lemmas about the option table\<close>

lemma strcmp_eq_0_iff: "(strcmp s t = 0) = (s = t)"
  by (induction s t rule: strcmp.induct) auto

lemma loop_succeeds_iff:
  "fst (parse_string_option_loop s table i out) = (s \<in> set table)"
  by (induction table arbitrary: i) (auto simp: strcmp_eq_0_iff)

lemma loop_index:
  "s \<in> set table \<Longrightarrow>
   snd (parse_string_option_loop s table i (Some old)) =
     Some (word_of_nat (i + first_index s table))"
proof (induction table arbitrary: i)
  case Nil
  then show ?case by simp
next
  case (Cons entry rest)
  show ?case
  proof (cases "entry = s")
    case True
    then show ?thesis by (simp add: strcmp_eq_0_iff first_index_def)
  next
    case False
    with Cons.prems have "s \<in> set rest" by auto
    from Cons.IH[OF this, of "i + 1"] False show ?thesis
      by (simp add: strcmp_eq_0_iff first_index_def)
  qed
qed

lemma first_index_less: "s \<in> set table \<Longrightarrow> first_index s table < length table"
  unfolding first_index_def by (induction table) auto

lemma first_index_hit: "s \<in> set table \<Longrightarrow> table ! first_index s table = s"
  unfolding first_index_def by (induction table) auto

lemma first_index_least: "j < first_index s table \<Longrightarrow> table ! j \<noteq> s"
  unfolding first_index_def
proof (induction table arbitrary: j)
  case Nil
  then show ?case by simp
next
  case (Cons e rest)
  then show ?case by (cases j) (auto split: if_splits)
qed

lemma first_index_replicate:
  "e \<noteq> s \<Longrightarrow> first_index s (replicate n e @ s # rest) = n"
  unfolding first_index_def by (induction n) auto

section \<open>Lemmas about the hexadecimal prefix\<close>

lemma hex_no_prefix:
  assumes "set s \<subseteq> set ''0123456789abcdefABCDEF''"
  shows "(case s of c0 # c1 # r \<Rightarrow>
            if c0 = CHR ''0'' \<and> (c1 = CHR ''x'' \<or> c1 = CHR ''X'') then r else s
          | _ \<Rightarrow> s) = s"
  using assms by (auto split: list.splits)

section \<open>Lemmas about decimal renderings\<close>

lemma below_ten: "(d::nat) < 10 \<longleftrightarrow> d \<in> {0, 1, 2, 3, 4, 5, 6, 7, 8, 9}"
  by auto

lemma code_digit_char: "d < 10 \<Longrightarrow> code (digit_char d) = 48 + d"
  unfolding below_ten by (auto simp: digit_char_def code_Char)

lemma isdigit_digit_char: "d < 10 \<Longrightarrow> isdigit (digit_char d)"
  by (simp add: isdigit_def code_digit_char)

lemma digit_value_digit_char: "d < 10 \<Longrightarrow> digit_value (digit_char d) = Some d"
  by (simp add: digit_value_def code_digit_char)

lemma is_digits_loop_iff: "is_digits_loop s = list_all isdigit s"
  by (induction s) auto

lemma dec_of_nat_digits: "list_all isdigit (dec_of_nat n)"
proof (induction n rule: dec_of_nat.induct)
  case (1 n)
  show ?case
  proof (cases "n < 10")
    case True
    then show ?thesis by (simp add: dec_of_nat.simps[of n] isdigit_digit_char)
  next
    case False
    with 1 show ?thesis by (simp add: dec_of_nat.simps[of n] isdigit_digit_char)
  qed
qed

lemma dec_of_nat_nonempty: "dec_of_nat n \<noteq> []"
  by (simp add: dec_of_nat.simps[of n])

lemma digits_value_snoc:
  "digits_value b (ds @ [c]) =
     digits_value b ds * b + (case digit_value c of None \<Rightarrow> 0 | Some d \<Rightarrow> d)"
  by (simp add: digits_value_def)

lemma digits_value_dec_of_nat: "digits_value 10 (dec_of_nat n) = n"
proof (induction n rule: dec_of_nat.induct)
  case (1 n)
  show ?case
  proof (cases "n < 10")
    case True
    then show ?thesis
      by (simp add: dec_of_nat.simps[of n] digits_value_def digit_value_digit_char)
  next
    case False
    with 1 have "digits_value 10 (dec_of_nat (n div 10)) = n div 10" by simp
    with False show ?thesis
      by (simp add: dec_of_nat.simps[of n] digits_value_snoc digit_value_digit_char)
  qed
qed

lemma in_base_10: "in_base 10 c = isdigit c"
  by (auto simp: in_base_def digit_value_def isdigit_def)

lemma isdigit_not_space: "isdigit c \<Longrightarrow> \<not> isspace c"
  by (auto simp: isdigit_def isspace_def)

lemma isdigit_not_sign: "isdigit c \<Longrightarrow> c \<noteq> CHR ''-'' \<and> c \<noteq> CHR ''+''"
  by (auto simp: isdigit_def code_Char)

lemma scan_integer_digits:
  assumes "s \<noteq> []" and "list_all isdigit s"
  shows "scan_integer 10 s = Some (False, digits_value 10 s, [])"
proof -
  from assms obtain c r where s: "s = c # r" and c: "isdigit c" and r: "list_all isdigit r"
    by (cases s) auto
  have sp: "dropWhile isspace s = s"
    using c by (simp add: s isdigit_not_space)
  have sg: "scan_sign s = (False, s)"
    using isdigit_not_sign[OF c] by (simp add: s scan_sign_def)
  have tk: "takeWhile (in_base 10) s = s" "dropWhile (in_base 10) s = []"
    using assms(2) by (simp_all add: in_base_10 list_all_iff)
  show ?thesis
    using assms(1) by (simp add: scan_integer_def sp sg tk)
qed

lemma scan_integer_minus_digits:
  assumes "s \<noteq> []" and "list_all isdigit s"
  shows "scan_integer 10 (CHR ''-'' # s) = Some (True, digits_value 10 s, [])"
proof -
  have sp: "\<not> isspace (CHR ''-'')"
    by (simp add: isspace_def code_Char)
  have tk: "takeWhile (in_base 10) s = s" "dropWhile (in_base 10) s = []"
    using assms(2) by (simp_all add: in_base_10 list_all_iff)
  show ?thesis
    using assms(1) by (simp add: scan_integer_def sp scan_sign_def tk)
qed



lemma up32_64: "is_up (ucast :: 32 word \<Rightarrow> 64 word)" "is_up (scast :: 32 word \<Rightarrow> 64 word)"
  "is_down (ucast :: 64 word \<Rightarrow> 32 word)"
  by (simp_all add: is_up is_down)

lemma ucast_less_up: "((ucast (v :: 32 word) :: 64 word) < ucast (w :: 32 word)) = (v < w)"
  by (simp add: word_less_def uint_up_ucast up32_64)

lemma ucast_back: "(ucast (ucast (v :: 32 word) :: 64 word) :: 32 word) = v"
  by (simp add: ucast_up_ucast_id up32_64)

lemma scast_sless_up: "((scast (v :: 32 word) :: 64 word) <s scast (w :: 32 word)) = (v <s w)"
  by (simp add: word_sless_alt sint_up_scast up32_64)

lemma scast_back: "(ucast (scast (v :: 32 word) :: 64 word) :: 32 word) = v"
proof -
  have "(ucast :: 64 word \<Rightarrow> 32 word) = scast"
    by (rule down_cast_same) (rule up32_64)
  then show ?thesis by (simp add: scast_up_scast_id up32_64)
qed

lemma is_digits_dec_of_nat: "is_digits (Some (dec_of_nat n))"
  by (simp add: is_digits_def dec_of_nat_nonempty is_digits_loop_iff dec_of_nat_digits)

lemma scan_integer_dec_of_nat: "scan_integer 10 (dec_of_nat n) = Some (False, n, [])"
  by (simp add: scan_integer_digits dec_of_nat_nonempty dec_of_nat_digits digits_value_dec_of_nat)

lemma scan_integer_minus_dec_of_nat:
  "scan_integer 10 (CHR ''-'' # dec_of_nat n) = Some (True, n, [])"
  by (simp add: scan_integer_minus_digits dec_of_nat_nonempty dec_of_nat_digits
      digits_value_dec_of_nat)

lemma uint32_roundtrip:
  assumes "lo \<le> v" and "v \<le> hi"
  shows "parse_uint32_in_range (Some (dec_of_nat (unat v))) lo hi (Some old) = (True, Some v)"
proof -
  have "unat v < 2 ^ 32" using unsigned_less[of v, where ?'a = nat] by simp
  then have le: "\<not> unat v > ULONG_MAX" by (simp add: ULONG_MAX_def)
  have st: "strtoul (dec_of_nat (unat v)) 10 = (ucast v, [])"
    using le by (simp add: strtoul_def scan_integer_dec_of_nat)
  have c: "\<not> (ucast v :: 64 word) < ucast lo" "\<not> (ucast v :: 64 word) > ucast hi"
    using assms by (simp_all add: ucast_less_up not_less)
  show ?thesis
    by (simp add: parse_uint32_in_range_def is_digits_dec_of_nat dec_of_nat_nonempty st c ucast_back)
qed

lemma uint64_roundtrip:
  assumes "lo \<le> v" and "v \<le> hi"
  shows "parse_uint64_in_range (Some (dec_of_nat (unat v))) lo hi (Some old) = (True, Some v)"
proof -
  have "unat v < 2 ^ 64" using unsigned_less[of v, where ?'a = nat] by simp
  then have le: "\<not> unat v > ULLONG_MAX" by (simp add: ULLONG_MAX_def)
  have st: "strtoull (dec_of_nat (unat v)) 10 = (v, [])"
    using le by (simp add: strtoull_def scan_integer_dec_of_nat)
  show ?thesis
    using assms
    by (simp add: parse_uint64_in_range_def is_digits_dec_of_nat dec_of_nat_nonempty st not_less)
qed

lemma is_valid_int_dec_of_int: "is_valid_int (Some (dec_of_int i))"
proof (cases "i < 0")
  case True
  then show ?thesis by (simp add: is_valid_int_def dec_of_int_def is_digits_dec_of_nat)
next
  case False
  obtain c r where s: "dec_of_nat (nat i) = c # r"
    using dec_of_nat_nonempty[of "nat i"] by (cases "dec_of_nat (nat i)") auto
  from dec_of_nat_digits[of "nat i"] s have "isdigit c" by simp
  then have "c \<noteq> CHR ''-'' \<and> c \<noteq> CHR ''+''" by (rule isdigit_not_sign)
  with False s is_digits_dec_of_nat[of "nat i"] show ?thesis
    by (simp add: is_valid_int_def dec_of_int_def)
qed

lemma strtol_dec_of_int:
  fixes v :: "32 word"
  shows "strtol (dec_of_int (sint v)) 10 = (scast v, [])"
proof (cases "sint v < 0")
  case True
  have "- (2 ^ 31) \<le> sint v" using sint_ge[of v] by simp
  then have n: "\<not> nat (- sint v) > LONG_MAX + 1" by (simp add: LONG_MAX_def)
  have "- (word_of_nat (nat (- sint v)) :: 64 word) = word_of_int (sint v)"
    using True by simp
  also have "\<dots> = scast v" by simp
  finally have w: "- (word_of_nat (nat (- sint v)) :: 64 word) = scast v" .
  show ?thesis
    using True n w by (simp add: dec_of_int_def strtol_def scan_integer_minus_dec_of_nat)
next
  case False
  have "sint v < 2 ^ 31" using sint_lt[of v] by simp
  then have n: "\<not> nat (sint v) > LONG_MAX" by (simp add: LONG_MAX_def)
  have "(word_of_nat (nat (sint v)) :: 64 word) = word_of_int (sint v)"
    using False by simp
  also have "\<dots> = scast v" by simp
  finally have w: "(word_of_nat (nat (sint v)) :: 64 word) = scast v" .
  show ?thesis
    using False n w by (simp add: dec_of_int_def strtol_def scan_integer_dec_of_nat)
qed

lemma int_roundtrip:
  fixes v :: "32 word"
  assumes "lo \<le>s v" and "v \<le>s hi"
  shows "parse_int_in_range (Some (dec_of_int (sint v))) lo hi (Some old) = (True, Some v)"
proof -
  have ne: "dec_of_int (sint v) \<noteq> []"
    by (simp add: dec_of_int_def dec_of_nat_nonempty)
  have c: "\<not> (scast v :: 64 word) <s scast lo" "\<not> (scast hi :: 64 word) <s scast v"
    using assms unfolding scast_sless_up by (simp_all add: word_sless_alt word_sle_eq)
  show ?thesis
    by (simp add: parse_int_in_range_def ne is_valid_int_dec_of_int strtol_dec_of_int c scast_back)
qed

section \<open>Lemmas about empty ranges and overflow\<close>

lemma uint32_empty_range:
  "hi < lo \<Longrightarrow> fst (parse_uint32_in_range arg lo hi out) = False"
proof -
  assume "hi < lo"
  then have "(ucast hi :: 64 word) < ucast lo" by (simp add: ucast_less_up)
  then have "val < ucast lo \<or> ucast hi < val" for val :: "64 word" by auto
  then show ?thesis
    by (simp add: parse_uint32_in_range_def split: option.splits prod.splits)
qed

lemma uint64_empty_range:
  "hi < lo \<Longrightarrow> fst (parse_uint64_in_range arg lo hi out) = False"
proof -
  assume "hi < lo"
  then have "val < lo \<or> hi < val" for val :: "64 word" by auto
  then show ?thesis
    by (simp add: parse_uint64_in_range_def split: option.splits prod.splits)
qed

lemma int_empty_range:
  "hi <s lo \<Longrightarrow> fst (parse_int_in_range arg lo hi out) = False"
proof -
  assume "hi <s lo"
  then have "(scast hi :: 64 word) <s scast lo" by (simp only: scast_sless_up)
  then have "val <s scast lo \<or> scast hi <s val" for val :: "64 word"
    by (auto simp: word_sless_alt)
  then show ?thesis
    by (simp add: parse_int_in_range_def split: option.splits prod.splits)
qed

lemma hex_empty_range:
  "hi < lo \<Longrightarrow> fst (parse_hex_in_range arg lo hi out) = False"
proof -
  assume "hi < lo"
  then have "val < lo \<or> hi < val" for val :: "64 word" by auto
  then show ?thesis
    by (simp add: parse_hex_in_range_def Let_def split: option.splits prod.splits)
qed

lemma float_less_empty_range:
  "float_less hi lo \<Longrightarrow> val \<noteq> FNaN \<Longrightarrow> float_less val lo \<or> float_less hi val"
  by (cases hi; cases lo; cases val) auto

text \<open>
  On an all-digits string whose value does not fit 64 bits, \<^verbatim>\<open>parse_uint64_in_range\<close>
  sees the value \<open>2^64 - 1\<close>: it succeeds exactly when the upper bound is \<open>2^64 - 1\<close>.
\<close>

lemma uint64_overflow_saturates:
  assumes "s \<noteq> []" and "list_all isdigit s" and "digits_value 10 s > 2 ^ 64 - 1"
  shows "parse_uint64_in_range (Some s) lo hi (Some old) =
           (if hi = - 1 then (True, Some (- 1)) else (False, Some old))"
proof -
  have d: "is_digits (Some s)"
    using assms(1,2) by (simp add: is_digits_def is_digits_loop_iff)
  have m: "(word_of_nat ULLONG_MAX :: 64 word) = - 1"
    by (simp add: ULLONG_MAX_def)
  have st: "strtoull s 10 = (- 1, [])"
    using assms(3) m
    by (simp add: strtoull_def scan_integer_digits[OF assms(1,2)] ULLONG_MAX_def)
  have c: "\<not> (- 1 :: 64 word) < lo" by simp
  have e: "(hi < (- 1 :: 64 word)) = (hi \<noteq> - 1)" by (simp add: word_order.not_eq_extremum)
  show ?thesis
    using assms(1) by (simp add: parse_uint64_in_range_def d st c e)
qed

section \<open>The tokens of \<^verbatim>\<open>parse_ip_address\<close>\<close>

text \<open>
  What the code accepts: \<open>tokens c s\<close> are the non-empty pieces of \<open>s\<close> between the
  occurrences of \<open>c\<close>, the tokens that \<^verbatim>\<open>strtok\<close> returns one after the other, and
  \<open>octet_ok\<close> is the test of the loop body on a token.
\<close>

definition tokens :: "char \<Rightarrow> string \<Rightarrow> string list" where
  "tokens c s = filter (\<lambda>t. t \<noteq> []) (split_on c s)"

definition octet_ok :: "string \<Rightarrow> bool" where
  "octet_ok t = (list_all isdigit t \<and> digits_value 10 t \<le> 255)"

lemma split_on_unfold:
  "split_on c xs =
     takeWhile (\<lambda>x. x \<noteq> c) xs #
       (case dropWhile (\<lambda>x. x \<noteq> c) xs of [] \<Rightarrow> [] | d # r \<Rightarrow> split_on c r)"
  by (induction xs) (auto split: list.splits)

lemma tokens_Nil: "tokens c [] = []"
  by (simp add: tokens_def)

lemma tokens_delim: "tokens c (c # xs) = tokens c xs"
  by (simp add: tokens_def)

lemma tokens_other:
  assumes "x \<noteq> c"
  shows "tokens c (x # xs) =
     (x # takeWhile (\<lambda>y. y \<noteq> c) xs) # tokens c (drop 1 (dropWhile (\<lambda>y. y \<noteq> c) xs))"
proof -
  have sp: "split_on c (x # xs) =
      (x # takeWhile (\<lambda>y. y \<noteq> c) xs) #
        (case dropWhile (\<lambda>y. y \<noteq> c) xs of [] \<Rightarrow> [] | d # r \<Rightarrow> split_on c r)"
    using assms split_on_unfold[of c "x # xs"] by simp
  show ?thesis
  proof (cases "dropWhile (\<lambda>y. y \<noteq> c) xs")
    case Nil
    show ?thesis unfolding tokens_def sp Nil by simp
  next
    case (Cons d r)
    show ?thesis unfolding tokens_def sp Cons by simp
  qed
qed

lemma strtok_tokens:
  "strtok s [c] =
     (case tokens c s of
        [] \<Rightarrow> None
      | t # ts \<Rightarrow> Some (t, drop 1 (dropWhile (\<lambda>y. y \<noteq> c) (dropWhile (\<lambda>y. y = c) s))))"
proof (induction s)
  case Nil
  show ?case by (simp add: strtok_def tokens_Nil)
next
  case (Cons x xs)
  show ?case
  proof (cases "x = c")
    case True
    have 1: "strtok (x # xs) [c] = strtok xs [c]"
      using True by (simp add: strtok_def)
    have 2: "dropWhile (\<lambda>y. y = c) (x # xs) = dropWhile (\<lambda>y. y = c) xs"
      using True by simp
    show ?thesis
      unfolding 1 2 using Cons.IH True by (simp add: tokens_delim)
  next
    case False
    then show ?thesis by (simp add: strtok_def tokens_other)
  qed
qed

lemma tokens_saved:
  "tokens c s = t # ts \<Longrightarrow>
   t = takeWhile (\<lambda>y. y \<noteq> c) (dropWhile (\<lambda>y. y = c) s) \<and>
   tokens c (drop 1 (dropWhile (\<lambda>y. y \<noteq> c) (dropWhile (\<lambda>y. y = c) s))) = ts"
proof (induction s)
  case Nil
  then show ?case by (simp add: tokens_Nil)
next
  case (Cons x xs)
  show ?case
  proof (cases "x = c")
    case True
    with Cons show ?thesis by (simp add: tokens_delim)
  next
    case False
    with Cons.prems show ?thesis by (simp add: tokens_other)
  qed
qed

lemma length_tokens_le: "length (tokens c s) \<le> length s"
proof (induction s rule: length_induct)
  case (1 s)
  show ?case
  proof (cases s)
    case Nil
    then show ?thesis by (simp add: tokens_Nil)
  next
    case (Cons x xs)
    show ?thesis
    proof (cases "x = c")
      case True
      have "length (tokens c xs) \<le> length xs" using 1 Cons by simp
      with True Cons show ?thesis by (simp add: tokens_delim)
    next
      case False
      let ?r = "drop 1 (dropWhile (\<lambda>y. y \<noteq> c) xs)"
      have "length ?r \<le> length xs"
        using length_dropWhile_le[of "\<lambda>y. y \<noteq> c" xs] by simp
      moreover from this Cons have "length ?r < length s" by simp
      with 1 have "length (tokens c ?r) \<le> length ?r" by blast
      ultimately show ?thesis using False Cons by (simp add: tokens_other)
    qed
  qed
qed


lemma tokens_nonempty: "t \<in> set (tokens c s) \<Longrightarrow> t \<noteq> []"
  by (simp add: tokens_def)

lemma sint_word_of_nat_64:
  "n < 2 ^ 63 \<Longrightarrow> sint (word_of_nat n :: 64 word) = int n"
proof -
  assume a: "n < 2 ^ 63"
  have "sint (word_of_nat n :: 64 word) = signed_take_bit 63 (int n)"
    using signed_of_int[where ?'a = int and ?'b = 64, of "int n"] by simp
  also have "\<dots> = int n"
    using a by (intro signed_take_bit_int_eq_self) simp_all
  finally show ?thesis .
qed

lemma octet_check:
  assumes "t \<noteq> []" and "list_all isdigit t"
  shows "(fst (strtol t 10) <s 0 \<or> 255 <s fst (strtol t 10)) = (digits_value 10 t > 255)"
proof (cases "digits_value 10 t > LONG_MAX")
  case True
  have "sint (word_of_nat LONG_MAX :: 64 word) = int LONG_MAX"
    by (rule sint_word_of_nat_64) (simp add: LONG_MAX_def)
  with True show ?thesis
    by (simp add: strtol_def scan_integer_digits[OF assms] word_sless_alt LONG_MAX_def)
next
  case False
  then have "digits_value 10 t < 2 ^ 63" by (simp add: LONG_MAX_def)
  then have "sint (word_of_nat (digits_value 10 t) :: 64 word) = int (digits_value 10 t)"
    by (rule sint_word_of_nat_64)
  with False show ?thesis
    by (simp add: strtol_def scan_integer_digits[OF assms] word_sless_alt)
qed

lemma loop_tokens:
  "parse_ip_address_loop s count =
     (if list_all octet_ok (tokens (CHR ''.'') s)
      then (True, count + word_of_nat (length (tokens (CHR ''.'') s)))
      else (False, count + word_of_nat (length (takeWhile octet_ok (tokens (CHR ''.'') s)))))"
proof (induction s count rule: parse_ip_address_loop.induct)
  case (1 saved count)
  let ?c = "CHR ''.''"
  show ?case
  proof (cases "tokens ?c saved")
    case Nil
    then have "strtok saved ''.'' = None" by (simp add: strtok_tokens)
    with Nil show ?thesis by (simp add: parse_ip_address_loop.simps[of saved])
  next
    case (Cons t ts)
    define saved' where
      "saved' = drop 1 (dropWhile (\<lambda>y. y \<noteq> ?c) (dropWhile (\<lambda>y. y = ?c) saved))"
    have st: "strtok saved ''.'' = Some (t, saved')"
      using Cons by (simp add: strtok_tokens saved'_def)
    have ts: "tokens ?c saved' = ts"
      using tokens_saved[OF Cons] by (simp add: saved'_def)
    have ne: "t \<noteq> []"
      using tokens_nonempty[of t ?c saved] Cons by simp
    have dg: "is_digits (Some t) = list_all isdigit t"
      using ne by (simp add: is_digits_def is_digits_loop_iff)
    show ?thesis
    proof (cases "octet_ok t")
      case False
      then have "\<not> list_all isdigit t \<or>
          (list_all isdigit t \<and> (fst (strtol t 10) <s 0 \<or> 255 <s fst (strtol t 10)))"
        using octet_check[OF ne] by (auto simp: octet_ok_def)
      with False Cons show ?thesis
        by (auto simp: parse_ip_address_loop.simps[of saved] st dg)
    next
      case True
      then have d: "list_all isdigit t" and
        r: "\<not> (fst (strtol t 10) <s 0 \<or> 255 <s fst (strtol t 10))"
        using octet_check[OF ne] by (auto simp: octet_ok_def)
      have step: "parse_ip_address_loop saved count = parse_ip_address_loop saved' (count + 1)"
        using d r by (simp add: parse_ip_address_loop.simps[of saved] st dg)
      have ih: "parse_ip_address_loop saved' (count + 1) =
         (if list_all octet_ok (tokens ?c saved')
          then (True, count + 1 + word_of_nat (length (tokens ?c saved')))
          else (False, count + 1 + word_of_nat (length (takeWhile octet_ok (tokens ?c saved')))))"
        using "1.IH"[of "(t, saved')" t saved' "fst (strtol t 10)"] st d r dg by simp
      show ?thesis
        unfolding step ih ts Cons using True by (simp add: add.assoc)
    qed
  qed
qed

text \<open>
  \<^verbatim>\<open>parse_ip_address\<close> succeeds exactly on the strings of at most 15 characters whose
  non-empty pieces between dots are four valid octets; empty pieces do not count. Every
  string that the spec's rule accepts is accepted.
\<close>

lemma parse_ip_address_tokens:
  "parse_ip_address (Some s) =
     (length s \<le> 15 \<and> length (tokens (CHR ''.'') s) = 4 \<and>
      list_all octet_ok (tokens (CHR ''.'') s))"
proof (cases "length s \<le> 15")
  case False
  then show ?thesis by (auto simp: parse_ip_address_def)
next
  case True
  let ?ts = "tokens (CHR ''.'') s"
  have "length ?ts \<le> 15" using length_tokens_le[of "CHR ''.''" s] True by simp
  then have "length ?ts < 2 ^ 32" by simp
  then have u: "unat (word_of_nat (length ?ts) :: c_int) = length ?ts"
    by (simp add: unat_of_nat)
  have w: "((word_of_nat (length ?ts) :: c_int) = 4) = (length ?ts = 4)"
  proof
    assume "(word_of_nat (length ?ts) :: c_int) = 4"
    then have "unat (word_of_nat (length ?ts) :: c_int) = unat (4 :: c_int)" by simp
    with u show "length ?ts = 4" by simp
  next
    assume "length ?ts = 4"
    then show "(word_of_nat (length ?ts) :: c_int) = 4" by simp
  qed
  show ?thesis
  proof (cases "s = []")
    case True
    then show ?thesis by (simp add: parse_ip_address_def tokens_Nil)
  next
    case False
    with True w show ?thesis
      by (auto simp: parse_ip_address_def loop_tokens)
  qed
qed

lemma spec_implies_code: "spec_ip_address s \<Longrightarrow> parse_ip_address (Some s)"
proof -
  assume a: "spec_ip_address s"
  then have "list_all (\<lambda>t. t \<noteq> []) (split_on (CHR ''.'') s)"
    by (simp add: spec_ip_address_def list_all_iff)
  then have "tokens (CHR ''.'') s = split_on (CHR ''.'') s"
    by (simp add: tokens_def list_all_iff)
  with a show ?thesis
    by (simp add: parse_ip_address_tokens spec_ip_address_def octet_ok_def list_all_iff)
qed

section \<open>The claims\<close>

text \<open>
  C1. The claim: \<^verbatim>\<open>parse_ip_address\<close> succeeds exactly on the strings of at most 15
  characters that split on the dot into exactly 4 non-empty tokens, all digits, each
  in \<open>[0, 255]\<close>; a string with an empty token fails. The code tokenises with
  \<^verbatim>\<open>strtok\<close>, which passes over any run of dots, so it accepts \<^verbatim>\<open>"1..2.3.4"\<close>, which has
  five pieces, one of them empty. (By \<open>parse_ip_address_tokens\<close> only the non-empty
  pieces count; by \<open>spec_implies_code\<close> the code accepts every string of the claim's form.)
\<close>

theorem parse_ip_address_accepts_empty_token:
  "parse_ip_address (Some ''1..2.3.4'') = True \<and> spec_ip_address ''1..2.3.4'' = False"
  by (simp add: run spec_ip_address_def)

text \<open>
  C2. When one of the seven parsers with an output slot returns false, the slot holds
  the value it held before the call.
\<close>

theorem failure_leaves_output:
  "(\<not> fst (parse_uint32_in_range a32 lo32 hi32 out32) \<longrightarrow>
      snd (parse_uint32_in_range a32 lo32 hi32 out32) = out32) \<and>
   (\<not> fst (parse_uint64_in_range a64 lo64 hi64 out64) \<longrightarrow>
      snd (parse_uint64_in_range a64 lo64 hi64 out64) = out64) \<and>
   (\<not> fst (parse_int_in_range ai loi hii outi) \<longrightarrow>
      snd (parse_int_in_range ai loi hii outi) = outi) \<and>
   (\<not> fst (parse_float_in_range conv af lof hif outf) \<longrightarrow>
      snd (parse_float_in_range conv af lof hif outf) = outf) \<and>
   (\<not> fst (parse_hex_in_range ah loh hih outh) \<longrightarrow>
      snd (parse_hex_in_range ah loh hih outh) = outh) \<and>
   (\<not> fst (parse_bool ab outb) \<longrightarrow> snd (parse_bool ab outb) = outb) \<and>
   (\<not> fst (parse_string_option ao table outo) \<longrightarrow>
      snd (parse_string_option ao table outo) = outo)"
  using uint32_frame[of a32 lo32 hi32 out32] uint64_frame[of a64 lo64 hi64 out64]
    int_frame[of ai loi hii outi] float_frame[of conv af lof hif outf]
    hex_frame[of ah loh hih outh] bool_frame[of ab outb]
    string_option_frame[of ao table outo]
  by blast

theorem failure_leaves_output_witness:
  "\<not> fst (parse_uint32_in_range (Some ''256'') 0 255 (Some 7)) \<and>
   snd (parse_uint32_in_range (Some ''256'') 0 255 (Some 7)) = Some 7 \<and>
   \<not> fst (parse_uint64_in_range (Some ''12x'') 0 99 (Some 7)) \<and>
   snd (parse_uint64_in_range (Some ''12x'') 0 99 (Some 7)) = Some 7 \<and>
   \<not> fst (parse_int_in_range (Some ''-'') 0 99 (Some 7)) \<and>
   snd (parse_int_in_range (Some ''-'') 0 99 (Some 7)) = Some 7 \<and>
   \<not> fst (parse_float_in_range (\<lambda>neg s. FFinite 0) (Some ''1.5kg'') (FFinite 0) (FFinite 9)
           (Some FPosInf)) \<and>
   snd (parse_float_in_range (\<lambda>neg s. FFinite 0) (Some ''1.5kg'') (FFinite 0) (FFinite 9)
           (Some FPosInf)) = Some FPosInf \<and>
   \<not> fst (parse_hex_in_range (Some ''0xg1'') 0 99 (Some 7)) \<and>
   snd (parse_hex_in_range (Some ''0xg1'') 0 99 (Some 7)) = Some 7 \<and>
   \<not> fst (parse_bool (Some ''maybe'') (Some True)) \<and>
   snd (parse_bool (Some ''maybe'') (Some True)) = Some True \<and>
   \<not> fst (parse_string_option (Some ''Green'') [''red'', ''green'', ''blue''] (Some 7)) \<and>
   snd (parse_string_option (Some ''Green'') [''red'', ''green'', ''blue''] (Some 7)) = Some 7"
  using failure_leaves_output
    [where ?a32.0 = "Some ''256''" and ?lo32.0 = 0 and ?hi32.0 = 255 and ?out32.0 = "Some 7"
       and ?a64.0 = "Some ''12x''" and ?lo64.0 = 0 and ?hi64.0 = 99 and ?out64.0 = "Some 7"
       and ai = "Some ''-''" and loi = 0 and hii = 99 and outi = "Some 7"
       and conv = "\<lambda>neg s. FFinite 0" and af = "Some ''1.5kg''" and lof = "FFinite 0"
       and hif = "FFinite 9" and outf = "Some FPosInf"
       and ah = "Some ''0xg1''" and loh = 0 and hih = 99 and outh = "Some 7"
       and ab = "Some ''maybe''" and outb = "Some True"
       and ao = "Some ''Green''" and table = "[''red'', ''green'', ''blue'']"
       and outo = "Some 7"]
  by (simp add: run)

text \<open>
  C3, as stated: \<^verbatim>\<open>"123abc"\<close> fails every numeric parser for every choice of bounds.
  It does not fail the hexadecimal parser: all six characters are hexadecimal digits.
\<close>

theorem hex_accepts_123abc:
  "parse_hex_in_range (Some ''123abc'') 0 18446744073709551615 (Some 0) =
     (True, Some 1194684)"
  by (simp add: run)

text \<open>
  C3, amended: for every choice of bounds, \<^verbatim>\<open>"123abc"\<close> fails the unsigned 32-bit, the
  unsigned 64-bit, the signed and the floating-point parser; the hexadecimal parser
  reads it as the number \<open>0x123abc = 1194684\<close>, succeeds exactly when the bounds include
  that number, and then writes it.
\<close>

theorem trailing_garbage_123abc:
  "fst (parse_uint32_in_range (Some ''123abc'') lo32 hi32 out32) = False \<and>
   fst (parse_uint64_in_range (Some ''123abc'') lo64 hi64 out64) = False \<and>
   fst (parse_int_in_range (Some ''123abc'') lo hi out) = False \<and>
   fst (parse_float_in_range conv (Some ''123abc'') flo fhi fout) = False \<and>
   parse_hex_in_range (Some ''123abc'') hlo hhi (Some old) =
     (if hlo \<le> 1194684 \<and> 1194684 \<le> hhi then (True, Some 1194684) else (False, Some old))"
  by (auto simp: run not_less)

text \<open>
  C4. The claim: an all-digits string whose value exceeds \<open>2^64 - 1\<close> fails
  \<^verbatim>\<open>parse_uint64_in_range\<close> for every choice of bounds. On such a string \<^verbatim>\<open>strtoull\<close>
  returns \<^verbatim>\<open>ULLONG_MAX\<close>, and the code, which does not look at \<^verbatim>\<open>errno\<close>, takes that
  for the value: with the upper bound \<open>2^64 - 1\<close> the string \<open>2^64\<close> is accepted and
  \<open>2^64 - 1\<close> is written.
\<close>

theorem parse_uint64_accepts_overflow:
  "is_digits (Some ''18446744073709551616'') \<and>
   digits_value 10 ''18446744073709551616'' = 2 ^ 64 \<and>
   parse_uint64_in_range (Some ''18446744073709551616'') 0 18446744073709551615 (Some 0) =
     (True, Some 18446744073709551615)"
  by (simp add: run)

text \<open>
  C5, as stated: every public function fails on the empty string, \<^verbatim>\<open>parse_string_option\<close>
  for every option table. A table that lists the empty string makes it succeed.
\<close>

theorem parse_string_option_accepts_empty:
  "parse_string_option (Some '''') [''''] (Some 7) = (True, Some 0)"
  by (simp add: run)

text \<open>
  C5, amended: on the empty string the five range parsers (for every bounds), the two
  IPv4 validators and \<^verbatim>\<open>parse_bool\<close> fail; \<^verbatim>\<open>parse_string_option\<close> succeeds exactly when
  the table has an empty entry; \<^verbatim>\<open>parse_custom\<close> returns what its validator returns, and
  fails when it is given no validator.
\<close>

theorem empty_argument:
  "fst (parse_uint32_in_range (Some '''') lo32 hi32 out32) = False \<and>
   fst (parse_uint64_in_range (Some '''') lo64 hi64 out64) = False \<and>
   fst (parse_int_in_range (Some '''') lo hi out) = False \<and>
   fst (parse_float_in_range conv (Some '''') flo fhi fout) = False \<and>
   fst (parse_hex_in_range (Some '''') hlo hhi hout) = False \<and>
   parse_ip_address (Some '''') = False \<and>
   parse_ip_address_with_netmask (Some '''') = False \<and>
   fst (parse_bool (Some '''') bout) = False \<and>
   fst (parse_string_option (Some '''') table iout) = ('''' \<in> set table) \<and>
   parse_custom (Some '''') (Some validator) cout = validator '''' cout \<and>
   fst (parse_custom (Some '''') None cout) = False"
  by (simp add: run loop_succeeds_iff)

text \<open>
  C6. The claim: with \<open>min > max\<close> a range parser fails on every argument. The
  floating-point parser accepts \<^verbatim>\<open>"nan"\<close> for the bounds \<open>min = 2\<close> and \<open>max = 1\<close>:
  \<^verbatim>\<open>strtof\<close> returns a NaN, both comparisons with a NaN are false, and the NaN is written.
\<close>

theorem parse_float_accepts_nan_in_empty_range:
  "float_less (FFinite 1) (FFinite 2) \<and>
   parse_float_in_range conv (Some ''nan'') (FFinite 2) (FFinite 1) (Some (FFinite 0)) =
     (True, Some FNaN)"
  by (simp add: run)

text \<open>
  C7. Decimal round trip: for a value \<open>v\<close> of the target type and bounds that include it,
  parsing the canonical decimal rendering of \<open>v\<close> succeeds and writes \<open>v\<close>. The unsigned
  parsers read \<open>v\<close> with \<open>unat\<close>, the signed parser with \<open>sint\<close> and the signed order.
\<close>

theorem decimal_roundtrip:
  "(lo32 \<le> v32 \<and> v32 \<le> hi32 \<longrightarrow>
      parse_uint32_in_range (Some (dec_of_nat (unat v32))) lo32 hi32 (Some old32) =
        (True, Some v32)) \<and>
   (lo64 \<le> v64 \<and> v64 \<le> hi64 \<longrightarrow>
      parse_uint64_in_range (Some (dec_of_nat (unat v64))) lo64 hi64 (Some old64) =
        (True, Some v64)) \<and>
   (lo \<le>s v \<and> v \<le>s hi \<longrightarrow>
      parse_int_in_range (Some (dec_of_int (sint v))) lo hi (Some old) = (True, Some v))"
  using uint32_roundtrip[of lo32 v32 hi32 old32] uint64_roundtrip[of lo64 v64 hi64 old64]
    int_roundtrip[of lo v hi old]
  by blast

theorem decimal_roundtrip_witness:
  "(0 :: uint32) \<le> 255 \<and> dec_of_nat (unat (255 :: uint32)) = ''255'' \<and>
   parse_uint32_in_range (Some ''255'') 0 255 (Some 7) = (True, Some 255) \<and>
   (1 :: uint64) \<le> 18446744073709551615 \<and>
   dec_of_nat (unat (18446744073709551615 :: uint64)) = ''18446744073709551615'' \<and>
   parse_uint64_in_range (Some ''18446744073709551615'') 1 18446744073709551615 (Some 7) =
     (True, Some 18446744073709551615) \<and>
   (- 2147483648 :: c_int) \<le>s - 42 \<and> (- 42 :: c_int) \<le>s 2147483647 \<and>
   dec_of_int (sint (- 42 :: c_int)) = ''-42'' \<and>
   parse_int_in_range (Some ''-42'') (- 2147483648) 2147483647 (Some 7) = (True, Some (- 42))"
  using decimal_roundtrip
    [where ?lo32.0 = 0 and ?v32.0 = 255 and ?hi32.0 = 255 and ?old32.0 = 7
       and ?lo64.0 = 1 and ?v64.0 = 18446744073709551615 and ?hi64.0 = 18446744073709551615
       and ?old64.0 = 7
       and lo = "- 2147483648" and v = "- 42" and hi = 2147483647 and old = 7]
  by (simp add: dec_of_nat.simps dec_of_int_def digit_char_def word_sle_eq)

text \<open>
  C8. For a non-empty string \<open>s\<close> of hexadecimal digits, \<^verbatim>\<open>parse_hex_in_range\<close> returns the
  same verdict and leaves the same output on \<^verbatim>\<open>"0x"\<close> followed by \<open>s\<close> as on \<open>s\<close>; with
  bounds that include 26, both \<^verbatim>\<open>"0x1A"\<close> and \<^verbatim>\<open>"1A"\<close> succeed and write 26.
\<close>

theorem hex_prefix_optional:
  "(s \<noteq> [] \<and> set s \<subseteq> set ''0123456789abcdefABCDEF'' \<longrightarrow>
      parse_hex_in_range (Some (''0x'' @ s)) lo hi out = parse_hex_in_range (Some s) lo hi out) \<and>
   (lo \<le> 26 \<and> 26 \<le> hi \<longrightarrow>
      parse_hex_in_range (Some ''0x1A'') lo hi (Some old) = (True, Some 26) \<and>
      parse_hex_in_range (Some ''1A'') lo hi (Some old) = (True, Some 26))"
proof (intro conjI impI)
  assume a: "s \<noteq> [] \<and> set s \<subseteq> set ''0123456789abcdefABCDEF''"
  then show "parse_hex_in_range (Some (''0x'' @ s)) lo hi out =
      parse_hex_in_range (Some s) lo hi out"
    using hex_no_prefix[of s] by (simp add: parse_hex_in_range_def)
next
  assume b: "lo \<le> 26 \<and> 26 \<le> hi"
  then show "parse_hex_in_range (Some ''0x1A'') lo hi (Some old) = (True, Some 26)"
    by (auto simp: run not_less)
  from b show "parse_hex_in_range (Some ''1A'') lo hi (Some old) = (True, Some 26)"
    by (auto simp: run not_less)
qed

theorem hex_prefix_optional_witness:
  "''fF'' \<noteq> [] \<and> set ''fF'' \<subseteq> set ''0123456789abcdefABCDEF'' \<and>
   parse_hex_in_range (Some ''0xfF'') 16 255 (Some 0) = (True, Some 255) \<and>
   parse_hex_in_range (Some ''fF'') 16 255 (Some 0) = (True, Some 255) \<and>
   (16 :: c_ulong) \<le> 26 \<and> (26 :: c_ulong) \<le> 255 \<and>
   parse_hex_in_range (Some ''0x1A'') 16 255 (Some 0) = (True, Some 26) \<and>
   parse_hex_in_range (Some ''1A'') 16 255 (Some 0) = (True, Some 26)"
  using hex_prefix_optional[of "''fF''" 16 255 "Some 0" 0]
  by (simp add: run)

text \<open>
  C9, as stated: on success the reported index is the smallest index at which the table
  holds the argument, for a table of any length. The index is stored in an
  \<^verbatim>\<open>unsigned int\<close>: in a table whose first match stands at position \<open>2^32\<close> the reported
  index is 0.
\<close>

theorem string_option_index_wraps:
  "parse_string_option (Some ''b'') (replicate (2 ^ 32) ''a'' @ [''b'']) (Some 7) =
     (True, Some 0) \<and>
   first_index ''b'' (replicate (2 ^ 32) ''a'' @ [''b'']) = 2 ^ 32"
proof -
  let ?table = "replicate (2 ^ 32) ''a'' @ [''b'']"
  have ne: "''a'' \<noteq> ''b''" by simp
  have fi: "first_index ''b'' ?table = 2 ^ 32"
    by (rule first_index_replicate[OF ne])
  have mem: "''b'' \<in> set ?table" by (simp only: set_append set_simps UnI2 insertI1)
  have w: "(word_of_nat (2 ^ 32) :: c_uint) = 0" by simp
  have "fst (parse_string_option (Some ''b'') ?table (Some 7)) = True"
    using mem by (simp only: parse_string_option_def option.case loop_succeeds_iff)
  moreover have "snd (parse_string_option (Some ''b'') ?table (Some 7)) = Some 0"
    using loop_index[OF mem, of 0 7] fi w
    by (simp only: parse_string_option_def option.case add_0)
  ultimately have "parse_string_option (Some ''b'') ?table (Some 7) = (True, Some 0)"
    by (simp only: prod_eq_iff fst_conv snd_conv simp_thms)
  then show ?thesis using fi by (rule conjI)
qed

text \<open>
  C9, amended: \<^verbatim>\<open>parse_string_option\<close> succeeds exactly when some entry of the table
  equals the argument, byte for byte. On success the position \<open>first_index s table\<close> is
  the smallest index at which the table holds the argument, and the reported index is
  that position cut to 32 bits; it is that position itself when the table has at most
  \<open>2^32\<close> entries.
\<close>

theorem string_option_first_match:
  "fst (parse_string_option (Some s) table out) = (s \<in> set table) \<and>
   (s \<in> set table \<longrightarrow>
      first_index s table < length table \<and>
      table ! first_index s table = s \<and>
      (\<forall>j < first_index s table. table ! j \<noteq> s) \<and>
      snd (parse_string_option (Some s) table (Some old)) =
        Some (word_of_nat (first_index s table)) \<and>
      (length table \<le> 2 ^ 32 \<longrightarrow>
         map_option unat (snd (parse_string_option (Some s) table (Some old))) =
           Some (first_index s table)))"
proof -
  have a: "fst (parse_string_option (Some s) table out) = (s \<in> set table)"
    by (simp add: parse_string_option_def loop_succeeds_iff)
  have b: "snd (parse_string_option (Some s) table (Some old)) =
        Some (word_of_nat (first_index s table))" if "s \<in> set table"
    using loop_index[OF that, of 0 old] by (simp add: parse_string_option_def)
  have c: "unat (word_of_nat (first_index s table) :: c_uint) = first_index s table"
    if "s \<in> set table" "length table \<le> 2 ^ 32"
  proof -
    from first_index_less[OF that(1)] that(2) have "first_index s table < 2 ^ 32" by simp
    then show ?thesis by (simp add: unat_of_nat)
  qed
  show ?thesis
    using a b c first_index_less first_index_hit first_index_least by auto
qed

theorem string_option_first_match_witness:
  "''green'' \<in> set [''red'', ''green'', ''blue'', ''green''] \<and>
   length [''red'', ''green'', ''blue'', ''green''] \<le> 2 ^ 32 \<and>
   first_index ''green'' [''red'', ''green'', ''blue'', ''green''] = 1 \<and>
   parse_string_option (Some ''green'') [''red'', ''green'', ''blue'', ''green''] (Some 9) =
     (True, Some 1) \<and>
   fst (parse_string_option (Some ''Green'') [''red'', ''green'', ''blue'', ''green''] (Some 9)) =
     False"
  using string_option_first_match
    [of "''green''" "[''red'', ''green'', ''blue'', ''green'']" "Some 9" 9]
    string_option_first_match
    [of "''Green''" "[''red'', ''green'', ''blue'', ''green'']" "Some 9" 9]
  by (simp add: run first_index_def)

text \<open>
  A validator that a caller of \<^verbatim>\<open>parse_custom\<close> may supply: it accepts exactly when it is
  handed an output slot, as the C function that returns \<^verbatim>\<open>out != NULL\<close> does, and writes
  nothing.
\<close>

definition needs_slot :: "string \<Rightarrow> nat option \<Rightarrow> bool \<times> nat option" where
  "needs_slot s out = (out \<noteq> None, out)"

text \<open>
  C10, as stated: for every parser that takes an output slot the verdict is the same with
  a slot and with a null output pointer. \<^verbatim>\<open>parse_custom\<close> takes an output pointer too and
  returns \<^verbatim>\<open>validator(arg, out)\<close>: with the validator above it succeeds with a slot and
  fails with the null pointer, on the same argument.
\<close>

theorem parse_custom_verdict_depends_on_output:
  "fst (parse_custom (Some ''x'') (Some needs_slot) (Some 0)) = True \<and>
   fst (parse_custom (Some ''x'') (Some needs_slot) None) = False"
  by (simp add: parse_custom_def needs_slot_def)

text \<open>
  C10, amended: for each of the seven parsers \<^verbatim>\<open>parse_uint32_in_range\<close>,
  \<^verbatim>\<open>parse_uint64_in_range\<close>, \<^verbatim>\<open>parse_int_in_range\<close>, \<^verbatim>\<open>parse_float_in_range\<close>,
  \<^verbatim>\<open>parse_hex_in_range\<close>, \<^verbatim>\<open>parse_bool\<close> and \<^verbatim>\<open>parse_string_option\<close> the verdict is the same
  with a slot and with a null output pointer. The verdict of \<^verbatim>\<open>parse_custom\<close> is false
  without an argument or without a validator, and otherwise it is the verdict of the
  validator on the argument and the pointer it was given.
\<close>

theorem verdict_independent_of_output:
  "fst (parse_uint32_in_range a32 lo32 hi32 (Some v32)) =
     fst (parse_uint32_in_range a32 lo32 hi32 None) \<and>
   fst (parse_uint64_in_range a64 lo64 hi64 (Some v64)) =
     fst (parse_uint64_in_range a64 lo64 hi64 None) \<and>
   fst (parse_int_in_range ai loi hii (Some vi)) = fst (parse_int_in_range ai loi hii None) \<and>
   fst (parse_float_in_range conv af lof hif (Some vf)) =
     fst (parse_float_in_range conv af lof hif None) \<and>
   fst (parse_hex_in_range ah loh hih (Some vh)) = fst (parse_hex_in_range ah loh hih None) \<and>
   fst (parse_bool ab (Some vb)) = fst (parse_bool ab None) \<and>
   fst (parse_string_option ao table (Some vo)) = fst (parse_string_option ao table None) \<and>
   fst (parse_custom None vopt cout) = False \<and>
   fst (parse_custom aopt None cout) = False \<and>
   fst (parse_custom (Some s) (Some validator) cout) = fst (validator s cout)"
proof -
  have seven:
    "fst (parse_uint32_in_range a32 lo32 hi32 (Some v32)) =
       fst (parse_uint32_in_range a32 lo32 hi32 None) \<and>
     fst (parse_uint64_in_range a64 lo64 hi64 (Some v64)) =
       fst (parse_uint64_in_range a64 lo64 hi64 None) \<and>
     fst (parse_int_in_range ai loi hii (Some vi)) = fst (parse_int_in_range ai loi hii None) \<and>
     fst (parse_float_in_range conv af lof hif (Some vf)) =
       fst (parse_float_in_range conv af lof hif None) \<and>
     fst (parse_hex_in_range ah loh hih (Some vh)) = fst (parse_hex_in_range ah loh hih None) \<and>
     fst (parse_bool ab (Some vb)) = fst (parse_bool ab None) \<and>
     fst (parse_string_option ao table (Some vo)) = fst (parse_string_option ao table None)"
    using uint32_verdict[of a32 lo32 hi32 v32] uint64_verdict[of a64 lo64 hi64 v64]
      int_verdict[of ai loi hii vi] float_verdict[of conv af lof hif vf]
      hex_verdict[of ah loh hih vh] bool_verdict[of ab vb]
      string_option_verdict[of ao table vo]
    by blast
  have custom:
    "fst (parse_custom None vopt cout) = False \<and>
     fst (parse_custom aopt None cout) = False \<and>
     fst (parse_custom (Some s) (Some validator) cout) = fst (validator s cout)"
    by (simp add: parse_custom_def split: option.splits)
  from seven custom show ?thesis by blast
qed

end
